theory Spec2Isabelle
  imports Complex_Main
begin

section \<open>Arithmetic of the type double\<close>

text \<open>
  Every number of the program is a C++ \<^verbatim>\<open>double\<close>. The program is embedded over an
  arbitrary carrier \<open>'d\<close> together with the operations the source applies to doubles,
  collected in a record. Nothing is assumed about the operations (no associativity, no
  commutativity, no exactness), so a statement proved for every record holds for the
  rounding operations of the machine as well, and the order in which the source combines
  its operands stays visible.

  \<^item> \<open>dzero\<close> is the literal \<^verbatim>\<open>0.0\<close>, also the value of a value-initialised vector
    element;
  \<^item> \<open>dadd\<close>, \<open>dsub\<close>, \<open>dmul\<close>, \<open>ddiv\<close> are \<^verbatim>\<open>+ - * /\<close> on doubles;
  \<^item> \<open>dpow x i\<close> is \<^verbatim>\<open>pow(x, i)\<close> with an \<^verbatim>\<open>int\<close> exponent;
  \<^item> \<open>i2d\<close> is the implicit conversion of an \<^verbatim>\<open>int\<close> operand to \<^verbatim>\<open>double\<close>;
  \<^item> \<open>d2i\<close> is the cast \<^verbatim>\<open>(int)\<close>: it truncates, and its behaviour is undefined
    (\<open>None\<close>) when the truncated value is no \<^verbatim>\<open>int\<close>;
  \<^item> \<open>dshow\<close> is the text that \<^verbatim>\<open>operator<<\<close> inserts for a double into a stream in
    its default format.
\<close>

record 'd arith =
  dzero :: 'd
  dadd :: "'d \<Rightarrow> 'd \<Rightarrow> 'd"
  dsub :: "'d \<Rightarrow> 'd \<Rightarrow> 'd"
  dmul :: "'d \<Rightarrow> 'd \<Rightarrow> 'd"
  ddiv :: "'d \<Rightarrow> 'd \<Rightarrow> 'd"
  dpow :: "'d \<Rightarrow> int \<Rightarrow> 'd"
  i2d :: "int \<Rightarrow> 'd"
  d2i :: "'d \<Rightarrow> int option"
  dshow :: "'d \<Rightarrow> string"

section \<open>Function and PolynomicalFunction\<close>

text \<open>
  The abstract class \<^verbatim>\<open>Function\<close> has one implementation; virtual dispatch is case
  analysis on the datatype. The loop counters are \<^verbatim>\<open>int\<close> in the source and compared
  with \<^verbatim>\<open>size()\<close>; they count up from 0, so they are natural numbers here, and \<open>int i\<close>
  is the value the source passes on. The model is of vectors whose size is an \<^verbatim>\<open>int\<close>:
  on a longer one the counter of the source would overflow.
\<close>

datatype 'd func = PolynomicalFunction (coefficients: "'d list")

function evaluate_loop :: "'d arith \<Rightarrow> 'd list \<Rightarrow> 'd \<Rightarrow> nat \<Rightarrow> 'd \<Rightarrow> 'd" where
  "evaluate_loop A cs x i result =
     (if i < length cs
      then evaluate_loop A cs x (Suc i) (dadd A result (dmul A (cs ! i) (dpow A x (int i))))
      else result)"
  by pat_completeness auto
termination
  by (relation "measure (\<lambda>(A, cs, x, i, result). length cs - i)") auto

declare evaluate_loop.simps [simp del]

fun evaluate :: "'d arith \<Rightarrow> 'd func \<Rightarrow> 'd \<Rightarrow> 'd" where
  "evaluate A (PolynomicalFunction cs) x = evaluate_loop A cs x 0 (dzero A)"

function antiderivative_loop :: "'d arith \<Rightarrow> 'd list \<Rightarrow> nat \<Rightarrow> 'd list \<Rightarrow> 'd list" where
  "antiderivative_loop A cs i newCoeffs =
     (if i < length cs
      then antiderivative_loop A cs (Suc i)
             (newCoeffs[i + 1 := ddiv A (cs ! i) (i2d A (int i + 1))])
      else newCoeffs)"
  by pat_completeness auto
termination
  by (relation "measure (\<lambda>(A, cs, i, newCoeffs). length cs - i)") auto

declare antiderivative_loop.simps [simp del]

fun antiderivative :: "'d arith \<Rightarrow> 'd func \<Rightarrow> 'd func" where
  "antiderivative A (PolynomicalFunction cs) =
     PolynomicalFunction (antiderivative_loop A cs 0 (replicate (length cs + 1) (dzero A)))"

section \<open>Output streams\<close>

text \<open>
  The methods take an \<^verbatim>\<open>ostream&\<close> and the program has the global stream \<^verbatim>\<open>cout\<close>;
  the reference may be \<^verbatim>\<open>cout\<close> itself. The streams are a store from stream
  identities to the text written so far, and an insertion \<^verbatim>\<open><<\<close> appends to one of them.
\<close>

datatype ostream = Cout | Stream nat

type_synonym streams = "ostream \<Rightarrow> string"

definition put :: "ostream \<Rightarrow> string \<Rightarrow> streams \<Rightarrow> streams" where
  "put s t w = w(s := w s @ t)"

definition endl :: string where
  "endl = [CHR 0x0A]"

definition no_output :: streams where
  "no_output = (\<lambda>s. [])"

text \<open>The insertion of an \<^verbatim>\<open>int\<close>: its decimal digits, with a minus sign when negative.\<close>

definition digit_char :: "nat \<Rightarrow> char" where
  "digit_char n = ''0123456789'' ! n"

fun show_nat :: "nat \<Rightarrow> string" where
  "show_nat n = (if n < 10 then [digit_char n] else show_nat (n div 10) @ [digit_char (n mod 10)])"

declare show_nat.simps [simp del]

definition show_int :: "int \<Rightarrow> string" where
  "show_int i = (if i < 0 then CHR ''-'' # show_nat (nat (- i)) else show_nat (nat i))"

function print_loop :: "'d arith \<Rightarrow> 'd list \<Rightarrow> nat \<Rightarrow> streams \<Rightarrow> streams" where
  "print_loop A cs i w =
     (if i < length cs
      then print_loop A cs (Suc i)
             (if i = 0 then put Cout (dshow A (cs ! i)) w
              else put Cout (show_int (int i))
                     (put Cout ''x^'' (put Cout (dshow A (cs ! i)) (put Cout '' + '' w))))
      else w)"
  by pat_completeness auto
termination
  by (relation "measure (\<lambda>(A, cs, i, w). length cs - i)") auto

declare print_loop.simps [simp del]

fun print_Function :: "'d arith \<Rightarrow> 'd func \<Rightarrow> ostream \<Rightarrow> streams \<Rightarrow> streams" where
  "print_Function A (PolynomicalFunction cs) stream w = put Cout endl (print_loop A cs 0 w)"

section \<open>Integrator, AnalyticalIntegrator and RiemannIntegrator\<close>

text \<open>
  The only failure of the program is the cast \<^verbatim>\<open>(int)((b - a) / h)\<close>, undefined when the
  quotient does not truncate to an \<^verbatim>\<open>int\<close>. \<open>InvalidParameter\<close> is the condition the
  specification names for a step size that is not positive; no path of the source raises it.
\<close>

datatype error = InvalidParameter | UndefinedCast

datatype 'd integrator = AnalyticalIntegrator | RiemannIntegrator 'd

text \<open>
  The constructor \<^verbatim>\<open>RiemannIntegrator(double h=0.001) : h(h) {}\<close> stores its argument
  (\<open>0.001\<close> is what a call without an argument passes).
\<close>

definition RiemannIntegrator_new :: "'d \<Rightarrow> error + 'd integrator" where
  "RiemannIntegrator_new h = Inr (RiemannIntegrator h)"

function riemann_loop ::
  "'d arith \<Rightarrow> 'd \<Rightarrow> 'd func \<Rightarrow> 'd \<Rightarrow> int \<Rightarrow> int \<Rightarrow> 'd \<Rightarrow> 'd" where
  "riemann_loop A h f a n i sm =
     (if i < n
      then (let x1 = dadd A a (dmul A (i2d A i) h);
                x2 = dadd A x1 h;
                y1 = evaluate A f x1;
                y2 = evaluate A f x2
            in riemann_loop A h f a n (i + 1)
                 (dadd A sm (dmul A (dsub A x2 x1) (ddiv A (dadd A y2 y1) (i2d A 2)))))
      else sm)"
  by pat_completeness auto
termination
  by (relation "measure (\<lambda>(A, h, f, a, n, i, sm). nat (n - i))") auto

declare riemann_loop.simps [simp del]

fun integrate :: "'d arith \<Rightarrow> 'd integrator \<Rightarrow> 'd func \<Rightarrow> 'd \<Rightarrow> 'd \<Rightarrow> error + 'd" where
  "integrate A AnalyticalIntegrator f a b =
     (let p = antiderivative A f in Inr (dsub A (evaluate A p b) (evaluate A p a)))"
| "integrate A (RiemannIntegrator h) f a b =
     (case d2i A (ddiv A (dsub A b a) h) of
        None \<Rightarrow> Inl UndefinedCast
      | Some n \<Rightarrow> Inr (riemann_loop A h f a n 0 (dzero A)))"

fun print_Integrator :: "'d integrator \<Rightarrow> ostream \<Rightarrow> streams \<Rightarrow> streams" where
  "print_Integrator AnalyticalIntegrator stream w = put Cout ''Analytical'' w"
| "print_Integrator (RiemannIntegrator h) stream w = put Cout ''Riemann Sum'' w"

section \<open>printTable\<close>

function printTable_row ::
  "'d arith \<Rightarrow> 'd func \<Rightarrow> 'd integrator list \<Rightarrow> 'd \<Rightarrow> 'd \<Rightarrow> nat \<Rightarrow> streams \<Rightarrow> error + streams" where
  "printTable_row A f itors a b j w =
     (if j < length itors
      then (case integrate A (itors ! j) f a b of
              Inl e \<Rightarrow> Inl e
            | Inr v \<Rightarrow> printTable_row A f itors a b (Suc j) (put Cout '';'' (put Cout (dshow A v) w)))
      else Inr w)"
  by pat_completeness auto
termination
  by (relation "measure (\<lambda>(A, f, itors, a, b, j, w). length itors - j)") auto

declare printTable_row.simps [simp del]

function printTable_loop ::
  "'d arith \<Rightarrow> 'd func list \<Rightarrow> 'd integrator list \<Rightarrow> 'd \<Rightarrow> 'd \<Rightarrow> nat \<Rightarrow> streams \<Rightarrow> error + streams" where
  "printTable_loop A functions itors a b i w =
     (if i < length functions
      then (case printTable_row A (functions ! i) itors a b 0
                   (print_Function A (functions ! i) Cout w) of
              Inl e \<Rightarrow> Inl e
            | Inr w' \<Rightarrow> printTable_loop A functions itors a b (Suc i) (put Cout endl w'))
      else Inr w)"
  by pat_completeness auto
termination
  by (relation "measure (\<lambda>(A, functions, itors, a, b, i, w). length functions - i)") auto

declare printTable_loop.simps [simp del]

definition printTable ::
  "'d arith \<Rightarrow> 'd func list \<Rightarrow> 'd integrator list \<Rightarrow> 'd \<Rightarrow> 'd \<Rightarrow> streams \<Rightarrow> error + streams" where
  "printTable A functions itors a b w = printTable_loop A functions itors a b 0 w"

section \<open>Exact arithmetic\<close>

text \<open>
  The instance of the operations on the real numbers: every operation is exact. It
  describes the doubles as long as no operation rounds, overflows or divides by zero
  (a real quotient by zero is 0, the machine's is an infinity or a NaN), and it is where
  the results of the program are compared with the mathematical values.

  The cast to \<^verbatim>\<open>int\<close> discards the fractional part and is undefined outside the 32-bit
  range.
\<close>

definition INT_MIN :: int where
  "INT_MIN = - 2147483648"

definition INT_MAX :: int where
  "INT_MAX = 2147483647"

definition trunc :: "real \<Rightarrow> int" where
  "trunc r = (if 0 \<le> r then \<lfloor>r\<rfloor> else \<lceil>r\<rceil>)"

definition real_d2i :: "real \<Rightarrow> int option" where
  "real_d2i r = (if INT_MIN \<le> trunc r \<and> trunc r \<le> INT_MAX then Some (trunc r) else None)"

text \<open>
  The default format of a stream for a double is that of \<^verbatim>\<open>printf("%g")\<close> with six
  significant digits: the value is rounded to six significant decimal digits; with the
  decimal exponent \<open>X\<close> of the rounded value, it is written in fixed notation when
  \<open>-4 \<le> X < 6\<close> and in scientific notation with an exponent of at least two digits
  otherwise; trailing zeros of the fraction, and a decimal point with nothing after it, are
  removed.
\<close>

definition decimal_exponent :: "real \<Rightarrow> int" where
  "decimal_exponent a =
     (if 1 \<le> a then int (length (show_nat (nat \<lfloor>a\<rfloor>))) - 1
      else - int (length (show_nat (nat (\<lceil>1 / a\<rceil> - 1)))))"

definition round_half_even :: "real \<Rightarrow> int" where
  "round_half_even r =
     (if r - of_int \<lfloor>r\<rfloor> < 1 / 2 then \<lfloor>r\<rfloor>
      else if 1 / 2 < r - of_int \<lfloor>r\<rfloor> then \<lfloor>r\<rfloor> + 1
      else if even \<lfloor>r\<rfloor> then \<lfloor>r\<rfloor> else \<lfloor>r\<rfloor> + 1)"

definition strip_zeros :: "string \<Rightarrow> string" where
  "strip_zeros ds = rev (dropWhile (\<lambda>c. c = CHR ''0'') (rev ds))"

definition fraction :: "string \<Rightarrow> string" where
  "fraction ds = (if strip_zeros ds = [] then [] else CHR ''.'' # strip_zeros ds)"

definition fixed_notation :: "string \<Rightarrow> int \<Rightarrow> string" where
  "fixed_notation ds X =
     (if 0 \<le> X then take (nat X + 1) ds @ fraction (drop (nat X + 1) ds)
      else ''0'' @ fraction (replicate (nat (- X - 1)) (CHR ''0'') @ ds))"

definition scientific_notation :: "string \<Rightarrow> int \<Rightarrow> string" where
  "scientific_notation ds X =
     take 1 ds @ fraction (drop 1 ds) @ ''e'' @ (if X < 0 then ''-'' else ''+'')
       @ (if \<bar>X\<bar> < 10 then ''0'' else []) @ show_nat (nat \<bar>X\<bar>)"

definition show_double :: "real \<Rightarrow> string" where
  "show_double r =
     (if r = 0 then ''0''
      else
        (let e0 = decimal_exponent \<bar>r\<bar>;
             m0 = round_half_even (\<bar>r\<bar> * 10 powi (5 - e0));
             ds = show_nat (nat (if m0 = 1000000 then 100000 else m0));
             X = (if m0 = 1000000 then e0 + 1 else e0)
         in (if r < 0 then ''-'' else [])
              @ (if - 4 \<le> X \<and> X < 6 then fixed_notation ds X else scientific_notation ds X)))"

definition real_arith :: "real arith" where
  "real_arith = \<lparr> dzero = 0, dadd = (+), dsub = (-), dmul = (*), ddiv = (/),
     dpow = (\<lambda>x i. x powi i), i2d = of_int, d2i = real_d2i, dshow = show_double \<rparr>"

section \<open>Reference descriptions\<close>

text \<open>
  What the program is compared with. The text of a polynomial is the concatenation of its
  terms in the order of the coefficients, closed by a newline: the term of index 0 is the
  coefficient alone, every later term is the separator, the coefficient, \<open>x^\<close> and the
  index.
\<close>

definition term_text :: "'d arith \<Rightarrow> 'd list \<Rightarrow> nat \<Rightarrow> string" where
  "term_text A cs i =
     (if i = 0 then dshow A (cs ! i)
      else '' + '' @ dshow A (cs ! i) @ ''x^'' @ show_int (int i))"

definition polynomial_text :: "'d arith \<Rightarrow> 'd func \<Rightarrow> string" where
  "polynomial_text A f =
     concat (map (term_text A (coefficients f)) [0..<length (coefficients f)]) @ endl"

text \<open>
  The table: for each function in order its text, then for each integrator in order the
  value of \<open>integrate\<close> followed by a semicolon, then a newline. A cast that is undefined
  in some \<open>integrate\<close> leaves the whole table undefined.
\<close>

fun row_text :: "'d arith \<Rightarrow> 'd func \<Rightarrow> 'd integrator list \<Rightarrow> 'd \<Rightarrow> 'd \<Rightarrow> error + string" where
  "row_text A f [] a b = Inr []"
| "row_text A f (I # itors) a b =
     (case integrate A I f a b of
        Inl e \<Rightarrow> Inl e
      | Inr v \<Rightarrow>
          (case row_text A f itors a b of
             Inl e \<Rightarrow> Inl e
           | Inr t \<Rightarrow> Inr (dshow A v @ '';'' @ t)))"

fun table_text ::
  "'d arith \<Rightarrow> 'd func list \<Rightarrow> 'd integrator list \<Rightarrow> 'd \<Rightarrow> 'd \<Rightarrow> error + string" where
  "table_text A [] itors a b = Inr []"
| "table_text A (f # functions) itors a b =
     (case row_text A f itors a b of
        Inl e \<Rightarrow> Inl e
      | Inr r \<Rightarrow>
          (case table_text A functions itors a b of
             Inl e \<Rightarrow> Inl e
           | Inr t \<Rightarrow> Inr (polynomial_text A f @ r @ endl @ t)))"

text \<open>A result of \<open>integrate\<close> that is a number and not positive.\<close>

definition nonpositive_result :: "error + real \<Rightarrow> bool" where
  "nonpositive_result r = (case r of Inl e \<Rightarrow> False | Inr v \<Rightarrow> v \<le> 0)"

section \<open>Properties of PolynomicalFunction\<close>

subsection \<open>Evaluation on concrete inputs\<close>

text \<open>
  The equations of the loops are not simplification rules; on a concrete input they
  unroll the loop.
\<close>

lemmas loop_simps = evaluate_loop.simps antiderivative_loop.simps riemann_loop.simps
  print_loop.simps printTable_row.simps printTable_loop.simps

lemmas show_simps = show_double_def decimal_exponent_def round_half_even_def fixed_notation_def
  scientific_notation_def fraction_def strip_zeros_def show_nat.simps show_int_def digit_char_def

lemmas cast_simps = real_d2i_def trunc_def INT_MIN_def INT_MAX_def

subsection \<open>The loops as folds\<close>

lemma evaluate_loop_foldl:
  "evaluate_loop A cs x i result =
     foldl (\<lambda>acc k. dadd A acc (dmul A (cs ! k) (dpow A x (int k)))) result [i..<length cs]"
proof (induction A cs x i result rule: evaluate_loop.induct)
  case (1 A cs x i result)
  show ?case
  proof (cases "i < length cs")
    case True
    then show ?thesis
      using "1.IH" by (subst evaluate_loop.simps) (simp add: upt_conv_Cons)
  next
    case False
    then show ?thesis
      by (subst evaluate_loop.simps) simp
  qed
qed

lemma foldl_add_sum:
  fixes g :: "'a \<Rightarrow> real"
  shows "foldl (\<lambda>acc k. acc + g k) s ks = s + sum_list (map g ks)"
  by (induction ks arbitrary: s) (simp_all add: add.assoc)

lemma real_arith_simps [simp]:
  "dzero real_arith = 0" "dadd real_arith = (+)" "dsub real_arith = (-)"
  "dmul real_arith = (*)" "ddiv real_arith = (/)" "dpow real_arith = (\<lambda>x i. x powi i)"
  "i2d real_arith = of_int" "d2i real_arith = real_d2i" "dshow real_arith = show_double"
  by (simp_all add: real_arith_def)

lemma evaluate_real:
  "evaluate real_arith (PolynomicalFunction rs) y = (\<Sum>i<length rs. rs ! i * y ^ i)"
proof -
  have "evaluate real_arith (PolynomicalFunction rs) y
      = sum_list (map (\<lambda>i. rs ! i * y ^ i) [0..<length rs])"
    by (simp add: evaluate_loop_foldl foldl_add_sum)
  also have "\<dots> = (\<Sum>i<length rs. rs ! i * y ^ i)"
    by (simp add: interv_sum_list_conv_sum_set_nat atLeast0LessThan)
  finally show ?thesis .
qed

lemma evaluate_foldl:
  "evaluate A (PolynomicalFunction cs) x =
     foldl (\<lambda>acc i. dadd A acc (dmul A (cs ! i) (dpow A x (int i)))) (dzero A) [0..<length cs]"
  by (simp add: evaluate_loop_foldl)

text \<open>
  Claim C1. For every coefficient sequence and every \<open>x\<close>, \<open>evaluate\<close> returns the sum of
  the terms \<open>c\<^sub>i * pow(x, i)\<close>, each computed by exponentiation and added to the running
  result from the left in the order of increasing index, starting from \<open>0.0\<close>; in exact
  arithmetic this is the polynomial value \<open>\<Sum>i. c\<^sub>i * x ^ i\<close>.
\<close>

theorem evaluate_sum:
  "evaluate A (PolynomicalFunction cs) x =
     foldl (\<lambda>acc i. dadd A acc (dmul A (cs ! i) (dpow A x (int i)))) (dzero A) [0..<length cs]
   \<and> evaluate real_arith (PolynomicalFunction rs) y = (\<Sum>i<length rs. rs ! i * y ^ i)"
  using evaluate_foldl [of A cs x] evaluate_real [of rs y] by (rule conjI)

lemma antiderivative_loop_eq:
  "length nc = length cs + 1 \<Longrightarrow> i \<le> length cs \<Longrightarrow>
   antiderivative_loop A cs i nc =
     take (i + 1) nc @ map (\<lambda>k. ddiv A (cs ! k) (i2d A (int k + 1))) [i..<length cs]"
proof (induction A cs i nc rule: antiderivative_loop.induct)
  case (1 A cs i nc)
  show ?case
  proof (cases "i < length cs")
    case True
    let ?v = "ddiv A (cs ! i) (i2d A (int i + 1))"
    have "antiderivative_loop A cs i nc = antiderivative_loop A cs (Suc i) (nc[i + 1 := ?v])"
      using True by (subst antiderivative_loop.simps) simp
    also have "\<dots> = take (Suc i + 1) (nc[i + 1 := ?v])
        @ map (\<lambda>k. ddiv A (cs ! k) (i2d A (int k + 1))) [Suc i..<length cs]"
      using True "1.prems" by (intro "1.IH") simp_all
    also have "take (Suc i + 1) (nc[i + 1 := ?v]) = take (i + 1) nc @ [?v]"
      using True "1.prems" by (simp add: take_Suc_conv_app_nth)
    finally show ?thesis
      using True by (simp add: upt_conv_Cons)
  next
    case False
    then show ?thesis
      using "1.prems" by (subst antiderivative_loop.simps) simp
  qed
qed

lemma antiderivative_eq:
  "antiderivative A (PolynomicalFunction cs) =
     PolynomicalFunction (dzero A # map (\<lambda>i. ddiv A (cs ! i) (i2d A (int i + 1))) [0..<length cs])"
  by (simp add: antiderivative_loop_eq)

lemma antiderivative_real:
  "antiderivative real_arith (PolynomicalFunction rs) =
     PolynomicalFunction (0 # map (\<lambda>i. rs ! i / (real i + 1)) [0..<length rs])"
  unfolding antiderivative_eq by (simp add: add.commute)

text \<open>
  Claim C2. For every coefficient sequence \<open>c\<^sub>0 .. c\<^sub>n\<close>, the empty one included,
  \<open>antiderivative\<close> returns the polynomial with the coefficients
  \<open>[0, c\<^sub>0 / 1, c\<^sub>1 / 2, ..., c\<^sub>n / (n + 1)]\<close>: one element longer than the source, with
  constant term \<open>0\<close>; the empty sequence gives \<open>[0]\<close>.
\<close>

theorem antiderivative_coefficients:
  "coefficients (antiderivative A (PolynomicalFunction cs)) =
     dzero A # map (\<lambda>i. ddiv A (cs ! i) (i2d A (int i + 1))) [0..<length cs]
   \<and> length (coefficients (antiderivative A (PolynomicalFunction cs))) = length cs + 1
   \<and> coefficients (antiderivative A (PolynomicalFunction cs)) ! 0 = dzero A
   \<and> antiderivative A (PolynomicalFunction []) = PolynomicalFunction [dzero A]
   \<and> coefficients (antiderivative real_arith (PolynomicalFunction rs)) =
       0 # map (\<lambda>i. rs ! i / (real i + 1)) [0..<length rs]"
  unfolding antiderivative_eq antiderivative_real by simp

section \<open>Properties of RiemannIntegrator\<close>

lemma riemann_loop_foldl:
  "riemann_loop A h f a n i sm =
     foldl (\<lambda>acc k.
              let x1 = dadd A a (dmul A (i2d A k) h); x2 = dadd A x1 h
              in dadd A acc (dmul A (dsub A x2 x1)
                   (ddiv A (dadd A (evaluate A f x2) (evaluate A f x1)) (i2d A 2))))
       sm [i..n - 1]"
proof (induction A h f a n i sm rule: riemann_loop.induct)
  case (1 A h f a n i sm)
  show ?case
  proof (cases "i < n")
    case True
    then have "[i..n - 1] = i # [i + 1..n - 1]"
      by (simp add: upto_rec1)
    then show ?thesis
      using True "1.IH" by (subst riemann_loop.simps) (simp add: Let_def)
  next
    case False
    then show ?thesis
      by (subst riemann_loop.simps) simp
  qed
qed

lemma riemann_loop_empty: "n \<le> i \<Longrightarrow> riemann_loop A h f a n i sm = sm"
  by (subst riemann_loop.simps) simp

lemma integrate_riemann_Some:
  "d2i A (ddiv A (dsub A b a) h) = Some n \<Longrightarrow>
   integrate A (RiemannIntegrator h) f a b = Inr (riemann_loop A h f a n 0 (dzero A))"
  by simp

lemma sum_list_upto:
  fixes g :: "int \<Rightarrow> real"
  shows "sum_list (map g [0..n - 1]) = (\<Sum>i = 0..<n. g i)"
proof -
  have "sum_list (map g [0..n - 1]) = sum g (set [0..n - 1])"
    by (rule sum_list_distinct_conv_sum_set) simp
  also have "set [0..n - 1] = {0..<n}"
    by auto
  finally show ?thesis .
qed

lemma riemann_loop_real:
  "riemann_loop real_arith h f a n 0 0 =
     (\<Sum>i = 0..<n. let x1 = a + of_int i * h; x2 = x1 + h
                   in (x2 - x1) * (evaluate real_arith f x1 + evaluate real_arith f x2) / 2)"
proof -
  have "riemann_loop real_arith h f a n 0 0 =
      sum_list (map (\<lambda>i. let x1 = a + of_int i * h; x2 = x1 + h
                   in (x2 - x1) * (evaluate real_arith f x1 + evaluate real_arith f x2) / 2) [0..n - 1])"
    unfolding riemann_loop_foldl by (simp add: Let_def foldl_add_sum add.commute)
  then show ?thesis
    by (simp only: sum_list_upto)
qed

lemma real_d2i_Some:
  "INT_MIN \<le> trunc r \<Longrightarrow> trunc r \<le> INT_MAX \<Longrightarrow> real_d2i r = Some (trunc r)"
  by (simp add: real_d2i_def)

text \<open>
  Claim C3, as amended. Whenever the cast of \<open>(b - a) / h\<close> to \<^verbatim>\<open>int\<close> is defined, with
  value \<open>n\<close>, \<open>RiemannIntegrator::integrate\<close> returns the sum, accumulated from \<open>0.0\<close> for
  \<open>i = 0, ..., n - 1\<close> in this order, of the trapezoid areas
  \<open>(x2 - x1) * ((f(x2) + f(x1)) / 2)\<close> with \<open>x1 = a + i * h\<close> and \<open>x2 = x1 + h\<close>; this holds
  for every arithmetic of the doubles. No term stands for a last partial subinterval. In
  exact arithmetic the cast is defined when \<open>h \<noteq> 0\<close> and the quotient truncated toward zero
  is an \<^verbatim>\<open>int\<close>; then \<open>n\<close> is that truncation and the result is the trapezoidal sum of the
  terms \<open>(x2 - x1) * (f(x1) + f(x2)) / 2\<close>. Nothing is stated where the cast is undefined.
\<close>

theorem riemann_trapezoid:
  "(d2i A (ddiv A (dsub A b a) h) = Some n \<longrightarrow>
      integrate A (RiemannIntegrator h) f a b =
        Inr (foldl (\<lambda>acc i.
                      let x1 = dadd A a (dmul A (i2d A i) h); x2 = dadd A x1 h
                      in dadd A acc (dmul A (dsub A x2 x1)
                           (ddiv A (dadd A (evaluate A f x2) (evaluate A f x1)) (i2d A 2))))
               (dzero A) [0..n - 1]))
   \<and> (hr \<noteq> 0 \<and> INT_MIN \<le> trunc ((br - ar) / hr) \<and> trunc ((br - ar) / hr) \<le> INT_MAX \<longrightarrow>
      integrate real_arith (RiemannIntegrator hr) g ar br =
        Inr (\<Sum>i = 0..<trunc ((br - ar) / hr).
               let x1 = ar + of_int i * hr; x2 = x1 + hr
               in (x2 - x1) * (evaluate real_arith g x1 + evaluate real_arith g x2) / 2))"
proof (intro conjI impI)
  assume "d2i A (ddiv A (dsub A b a) h) = Some n"
  then show "integrate A (RiemannIntegrator h) f a b =
        Inr (foldl (\<lambda>acc i.
                      let x1 = dadd A a (dmul A (i2d A i) h); x2 = dadd A x1 h
                      in dadd A acc (dmul A (dsub A x2 x1)
                           (ddiv A (dadd A (evaluate A f x2) (evaluate A f x1)) (i2d A 2))))
               (dzero A) [0..n - 1])"
    by (simp only: integrate_riemann_Some riemann_loop_foldl)
next
  assume "hr \<noteq> 0 \<and> INT_MIN \<le> trunc ((br - ar) / hr) \<and> trunc ((br - ar) / hr) \<le> INT_MAX"
  then have "d2i real_arith (ddiv real_arith (dsub real_arith br ar) hr) = Some (trunc ((br - ar) / hr))"
    by (simp add: real_d2i_Some)
  then have "integrate real_arith (RiemannIntegrator hr) g ar br =
      Inr (riemann_loop real_arith hr g ar (trunc ((br - ar) / hr)) 0 0)"
    by (simp only: integrate_riemann_Some real_arith_simps)
  then show "integrate real_arith (RiemannIntegrator hr) g ar br =
        Inr (\<Sum>i = 0..<trunc ((br - ar) / hr).
               let x1 = ar + of_int i * hr; x2 = x1 + hr
               in (x2 - x1) * (evaluate real_arith g x1 + evaluate real_arith g x2) / 2)"
    by (simp only: riemann_loop_real)
qed

text \<open>
  With \<open>a = 0\<close>, \<open>b = 1\<close> and \<open>h = 0.3\<close> the count is 3 and, for \<open>f(x) = x\<close>, the result
  is the area over \<open>[0, 0.9]\<close>: the last partial subinterval \<open>[0.9, 1]\<close> is dropped.
\<close>

theorem riemann_trapezoid_witness:
  "d2i real_arith (ddiv real_arith (dsub real_arith 1 0) (3 / 10)) = Some 3
   \<and> integrate real_arith (RiemannIntegrator (3 / 10)) (PolynomicalFunction [0, 1]) 0 1
       = Inr (81 / 200)"
  using riemann_trapezoid [where A = real_arith and a = 0 and b = 1 and h = "3 / 10" and n = 3
      and f = "PolynomicalFunction [0, 1]" and ar = 0 and br = 1 and hr = "3 / 10"
      and g = "PolynomicalFunction [0, 1]"]
  by (simp add: cast_simps loop_simps)

text \<open>
  The claim as stated, for every \<open>a\<close>, \<open>b\<close> and \<open>h\<close>, fails where the quotient is no
  \<^verbatim>\<open>int\<close>: for \<open>f = 1\<close>, \<open>a = 0\<close>, \<open>b = 3221225472\<close> and \<open>h = 1\<close> the truncated quotient is
  \<open>3221225472 > INT_MAX\<close>, the cast is undefined, and the result is not the sum
  \<open>3221225472\<close> of the claim.
\<close>

theorem riemann_undefined_counterexample:
  "integrate real_arith (RiemannIntegrator 1) (PolynomicalFunction [1]) 0 3221225472
     = Inl UndefinedCast
   \<and> trunc ((3221225472 - 0) / 1) = 3221225472
   \<and> integrate real_arith (RiemannIntegrator 1) (PolynomicalFunction [1]) 0 3221225472
     \<noteq> Inr 3221225472"
  by (simp add: cast_simps)

lemma trunc_le_0: "r < 1 \<Longrightarrow> trunc r \<le> 0"
  unfolding trunc_def by (auto simp: floor_le_iff ceiling_le_iff)

text \<open>
  Claim C5. When \<open>(b - a) / h\<close> casts to an \<^verbatim>\<open>int\<close> \<open>n \<le> 0\<close>, the loop of
  \<open>RiemannIntegrator::integrate\<close> does not run and the result is \<open>0.0\<close>. In exact
  arithmetic with \<open>h > 0\<close> this is the case whenever \<open>b - a < h\<close> (so whenever \<open>b < a\<close>, and
  whenever \<open>h\<close> is larger than \<open>b - a\<close>) and the quotient truncates to an \<^verbatim>\<open>int\<close>: the
  result is \<open>0\<close>, never a negative number.
\<close>

theorem riemann_empty:
  "(d2i A (ddiv A (dsub A b a) h) = Some n \<and> n \<le> 0 \<longrightarrow>
      integrate A (RiemannIntegrator h) f a b = Inr (dzero A))
   \<and> (0 < hr \<and> br - ar < hr \<and> INT_MIN \<le> trunc ((br - ar) / hr) \<longrightarrow>
      integrate real_arith (RiemannIntegrator hr) g ar br = Inr 0)"
proof (intro conjI impI)
  assume "d2i A (ddiv A (dsub A b a) h) = Some n \<and> n \<le> 0"
  then show "integrate A (RiemannIntegrator h) f a b = Inr (dzero A)"
    by (simp add: riemann_loop_empty)
next
  assume H: "0 < hr \<and> br - ar < hr \<and> INT_MIN \<le> trunc ((br - ar) / hr)"
  then have "(br - ar) / hr < 1"
    by simp
  then have le: "trunc ((br - ar) / hr) \<le> 0"
    by (rule trunc_le_0)
  then have "trunc ((br - ar) / hr) \<le> INT_MAX"
    by (simp add: INT_MAX_def)
  with H have "real_d2i ((br - ar) / hr) = Some (trunc ((br - ar) / hr))"
    by (simp add: real_d2i_Some)
  with le show "integrate real_arith (RiemannIntegrator hr) g ar br = Inr 0"
    by (simp add: riemann_loop_empty)
qed

text \<open>
  With \<open>b < a\<close> (\<open>a = 1\<close>, \<open>b = 0\<close>, \<open>h = 0.25\<close>, count \<open>-4\<close>) and with \<open>h\<close> larger than
  \<open>b - a\<close> (\<open>a = 0\<close>, \<open>b = 1\<close>, \<open>h = 2\<close>).
\<close>

theorem riemann_empty_witness:
  "d2i real_arith (ddiv real_arith (dsub real_arith 0 1) (1 / 4)) = Some (- 4)
   \<and> integrate real_arith (RiemannIntegrator (1 / 4)) (PolynomicalFunction [2, 0, 0, 4]) 1 0 = Inr 0
   \<and> integrate real_arith (RiemannIntegrator 2) (PolynomicalFunction [2, 0, 0, 4]) 0 1 = Inr 0"
  using riemann_empty [where A = real_arith and a = 1 and b = 0 and h = "1 / 4" and n = "- 4"
      and f = "PolynomicalFunction [2, 0, 0, 4]" and ar = 0 and br = 1 and hr = 2
      and g = "PolynomicalFunction [2, 0, 0, 4]"]
  by (simp add: cast_simps)

section \<open>The constructor of RiemannIntegrator\<close>

text \<open>
  Claim C6, as amended. The constructor accepts every step size, a non-positive one
  included: it stores the value and raises nothing, so no \<open>InvalidParameter\<close> condition
  arises. \<open>integrate\<close> then uses the value as it is: in exact arithmetic, with \<open>h < 0\<close> and
  \<open>a \<le> b\<close> the count is not positive and the result is \<open>0\<close>.
\<close>

theorem constructor_accepts:
  "RiemannIntegrator_new h = Inr (RiemannIntegrator h)
   \<and> (hr < 0 \<and> ar \<le> br \<and> INT_MIN \<le> trunc ((br - ar) / hr) \<longrightarrow>
        (\<exists>I. RiemannIntegrator_new hr = Inr I \<and> integrate real_arith I g ar br = Inr 0))"
proof (intro conjI impI)
  show "RiemannIntegrator_new h = Inr (RiemannIntegrator h)"
    by (simp add: RiemannIntegrator_new_def)
next
  assume H: "hr < 0 \<and> ar \<le> br \<and> INT_MIN \<le> trunc ((br - ar) / hr)"
  then have "(br - ar) / hr \<le> 0"
    by (simp add: divide_nonneg_neg)
  then have le: "trunc ((br - ar) / hr) \<le> 0"
    by (intro trunc_le_0) simp
  then have "trunc ((br - ar) / hr) \<le> INT_MAX"
    by (simp add: INT_MAX_def)
  with H have "real_d2i ((br - ar) / hr) = Some (trunc ((br - ar) / hr))"
    by (simp add: real_d2i_Some)
  with le have "integrate real_arith (RiemannIntegrator hr) g ar br = Inr 0"
    by (simp add: riemann_loop_empty)
  then show "\<exists>I. RiemannIntegrator_new hr = Inr I \<and> integrate real_arith I g ar br = Inr 0"
    by (simp add: RiemannIntegrator_new_def)
qed

theorem constructor_accepts_witness:
  "RiemannIntegrator_new (- 1 :: real) = Inr (RiemannIntegrator (- 1))
   \<and> integrate real_arith (RiemannIntegrator (- 1)) (PolynomicalFunction [5]) 0 1 = Inr 0"
  using constructor_accepts [where h = "- 1 :: real" and hr = "- 1" and ar = 0 and br = 1
      and g = "PolynomicalFunction [5]"]
  by (simp add: cast_simps RiemannIntegrator_new_def)

text \<open>
  The claim as stated fails: the step size \<open>-1\<close> is not rejected.
\<close>

theorem constructor_accepts_counterexample:
  "(- 1 :: real) \<le> 0
   \<and> RiemannIntegrator_new (- 1 :: real) = Inr (RiemannIntegrator (- 1))
   \<and> RiemannIntegrator_new (- 1 :: real) \<noteq> Inl InvalidParameter"
  by (simp add: RiemannIntegrator_new_def)

section \<open>Properties of AnalyticalIntegrator\<close>

lemma evaluate_antiderivative_real:
  "evaluate real_arith (antiderivative real_arith (PolynomicalFunction rs)) t =
     (\<Sum>i<length rs. rs ! i / (real i + 1) * t ^ (i + 1))"
proof -
  let ?F = "0 # map (\<lambda>i. rs ! i / (real i + 1)) [0..<length rs]"
  have "evaluate real_arith (antiderivative real_arith (PolynomicalFunction rs)) t =
      (\<Sum>j<Suc (length rs). ?F ! j * t ^ j)"
    by (simp only: antiderivative_real evaluate_real) simp
  also have "\<dots> = (\<Sum>i<length rs. ?F ! Suc i * t ^ Suc i)"
    by (subst sum.lessThan_Suc_shift) simp
  also have "\<dots> = (\<Sum>i<length rs. rs ! i / (real i + 1) * t ^ (i + 1))"
    by (rule sum.cong) simp_all
  finally show ?thesis .
qed

lemma integrate_analytical:
  "integrate A AnalyticalIntegrator f a b =
     Inr (dsub A (evaluate A (antiderivative A f) b) (evaluate A (antiderivative A f) a))"
  by (simp add: Let_def)

lemma integrate_analytical_real:
  "integrate real_arith AnalyticalIntegrator (PolynomicalFunction rs) x y =
     Inr (\<Sum>i<length rs. rs ! i / (real i + 1) * (y ^ (i + 1) - x ^ (i + 1)))"
  unfolding integrate_analytical evaluate_antiderivative_real
  by (simp add: sum_subtractf right_diff_distrib)

lemma antiderivative_DERIV:
  "((\<lambda>t. evaluate real_arith (antiderivative real_arith (PolynomicalFunction rs)) t)
      has_field_derivative evaluate real_arith (PolynomicalFunction rs) t) (at t)"
proof -
  have monomial: "((\<lambda>t. rs ! i / (real i + 1) * t ^ (i + 1))
      has_field_derivative rs ! i * t ^ i) (at t)" for i
  proof -
    have nz: "real i + 1 \<noteq> 0"
      using of_nat_0_le_iff [of i, where 'a = real] by linarith
    have "((\<lambda>t. t ^ Suc i) has_field_derivative (1 + real i) * (1 * t ^ i)) (at t)"
      by (rule DERIV_power_Suc) (rule DERIV_ident)
    then have "((\<lambda>t. rs ! i / (real i + 1) * t ^ Suc i)
        has_field_derivative rs ! i / (real i + 1) * ((1 + real i) * (1 * t ^ i))) (at t)"
      by (rule DERIV_cmult)
    moreover have "rs ! i / (real i + 1) * ((1 + real i) * (1 * t ^ i)) = rs ! i * t ^ i"
      using nz by (simp add: add.commute)
    ultimately show ?thesis
      by simp
  qed
  have "((\<lambda>t. \<Sum>i<length rs. rs ! i / (real i + 1) * t ^ (i + 1))
      has_field_derivative (\<Sum>i<length rs. rs ! i * t ^ i)) (at t)"
    by (rule DERIV_sum) (rule monomial)
  then show ?thesis
    by (simp only: evaluate_antiderivative_real evaluate_real)
qed

text \<open>
  Claim C4. \<open>AnalyticalIntegrator::integrate\<close> returns \<open>F(b) - F(a)\<close> for the function \<open>F\<close>
  that \<open>f.antiderivative()\<close> returns. For a polynomial with the coefficients \<open>c\<^sub>0 .. c\<^sub>n\<close>
  this is, in exact arithmetic, the closed form
  \<open>\<Sum>i. c\<^sub>i / (i + 1) * (b ^ (i + 1) - a ^ (i + 1))\<close> of the definite integral: \<open>F\<close> is an
  antiderivative of the polynomial, its derivative at every point is the value of the
  polynomial there.
\<close>

theorem analytical_closed_form:
  "integrate A AnalyticalIntegrator f a b =
     Inr (dsub A (evaluate A (antiderivative A f) b) (evaluate A (antiderivative A f) a))
   \<and> integrate real_arith AnalyticalIntegrator (PolynomicalFunction rs) x y =
       Inr (\<Sum>i<length rs. rs ! i / (real i + 1) * (y ^ (i + 1) - x ^ (i + 1)))
   \<and> ((\<lambda>t. evaluate real_arith (antiderivative real_arith (PolynomicalFunction rs)) t)
        has_field_derivative evaluate real_arith (PolynomicalFunction rs) t) (at t)"
  using integrate_analytical [of A f a b] integrate_analytical_real [of rs x y]
    antiderivative_DERIV [of rs t]
  by (intro conjI)

lemma antiderivative_nondecreasing:
  assumes "x \<le> y"
    and "\<And>t. x \<le> t \<Longrightarrow> t \<le> y \<Longrightarrow> 0 \<le> evaluate real_arith f t"
  shows "evaluate real_arith (antiderivative real_arith f) x
       \<le> evaluate real_arith (antiderivative real_arith f) y"
proof (rule DERIV_nonneg_imp_nondecreasing [OF assms(1)])
  fix t assume "x \<le> t" "t \<le> y"
  then have "0 \<le> evaluate real_arith f t"
    by (rule assms(2))
  moreover have "((\<lambda>t. evaluate real_arith (antiderivative real_arith f) t)
      has_field_derivative evaluate real_arith f t) (at t)"
    by (cases f) (simp only: antiderivative_DERIV)
  ultimately show "\<exists>d. ((\<lambda>t. evaluate real_arith (antiderivative real_arith f) t)
      has_field_derivative d) (at t) \<and> 0 \<le> d"
    by blast
qed

text \<open>
  Claim C7, as amended. \<open>AnalyticalIntegrator::integrate(f, a, b)\<close> returns \<open>F(b) - F(a)\<close> and
  \<open>integrate(f, b, a)\<close> returns \<open>F(a) - F(b)\<close>, for every arithmetic of the doubles. In exact
  arithmetic the first is the negation of the second and is \<open>0\<close> for \<open>a = b\<close>; it is not
  positive exactly when \<open>integrate(f, b, a)\<close> is not negative, and so for \<open>b \<le> a\<close> whenever
  \<open>f\<close> is not negative on \<open>[b, a]\<close>. It is positive when the integral over \<open>[b, a]\<close> is
  negative.
\<close>

theorem analytical_sign_flip:
  "integrate A AnalyticalIntegrator f a b =
     Inr (dsub A (evaluate A (antiderivative A f) b) (evaluate A (antiderivative A f) a))
   \<and> integrate A AnalyticalIntegrator f b a =
     Inr (dsub A (evaluate A (antiderivative A f) a) (evaluate A (antiderivative A f) b))
   \<and> (\<exists>v. integrate real_arith AnalyticalIntegrator g y x = Inr v
        \<and> integrate real_arith AnalyticalIntegrator g x y = Inr (- v))
   \<and> integrate real_arith AnalyticalIntegrator g x x = Inr 0
   \<and> (nonpositive_result (integrate real_arith AnalyticalIntegrator g x y)
        = (\<exists>v. integrate real_arith AnalyticalIntegrator g y x = Inr v \<and> 0 \<le> v))
   \<and> (y \<le> x \<and> (\<forall>t. y \<le> t \<and> t \<le> x \<longrightarrow> 0 \<le> evaluate real_arith g t) \<longrightarrow>
        nonpositive_result (integrate real_arith AnalyticalIntegrator g x y))"
proof (intro conjI impI)
  show "integrate A AnalyticalIntegrator f a b =
     Inr (dsub A (evaluate A (antiderivative A f) b) (evaluate A (antiderivative A f) a))"
    by (rule integrate_analytical)
  show "integrate A AnalyticalIntegrator f b a =
     Inr (dsub A (evaluate A (antiderivative A f) a) (evaluate A (antiderivative A f) b))"
    by (rule integrate_analytical)
  show "\<exists>v. integrate real_arith AnalyticalIntegrator g y x = Inr v
        \<and> integrate real_arith AnalyticalIntegrator g x y = Inr (- v)"
    by (simp add: Let_def)
  show "integrate real_arith AnalyticalIntegrator g x x = Inr 0"
    by (simp add: Let_def)
  show "nonpositive_result (integrate real_arith AnalyticalIntegrator g x y)
        = (\<exists>v. integrate real_arith AnalyticalIntegrator g y x = Inr v \<and> 0 \<le> v)"
    by (simp add: Let_def nonpositive_result_def)
next
  assume H: "y \<le> x \<and> (\<forall>t. y \<le> t \<and> t \<le> x \<longrightarrow> 0 \<le> evaluate real_arith g t)"
  then have "evaluate real_arith (antiderivative real_arith g) y
       \<le> evaluate real_arith (antiderivative real_arith g) x"
    by (intro antiderivative_nondecreasing) simp_all
  then show "nonpositive_result (integrate real_arith AnalyticalIntegrator g x y)"
    by (simp add: Let_def nonpositive_result_def)
qed

text \<open>
  The polynomial \<open>(x - 1)\<^sup>2 = 1 - 2x + x\<^sup>2\<close> from 3 to 0 and the constant 1 from 1 to -1: both are
  not negative on the interval, one has a negative coefficient, the other a negative bound.
\<close>

theorem analytical_sign_flip_witness:
  "integrate real_arith AnalyticalIntegrator (PolynomicalFunction [1, - 2, 1]) 3 0 = Inr (- 3)
   \<and> integrate real_arith AnalyticalIntegrator (PolynomicalFunction [1, - 2, 1]) 0 3 = Inr 3
   \<and> nonpositive_result
       (integrate real_arith AnalyticalIntegrator (PolynomicalFunction [1, - 2, 1]) 3 0)
   \<and> integrate real_arith AnalyticalIntegrator (PolynomicalFunction [1]) 1 (- 1) = Inr (- 2)
   \<and> nonpositive_result
       (integrate real_arith AnalyticalIntegrator (PolynomicalFunction [1]) 1 (- 1))"
proof -
  have square: "0 \<le> evaluate real_arith (PolynomicalFunction [1, - 2, 1]) t" for t
  proof -
    have "evaluate real_arith (PolynomicalFunction [1, - 2, 1]) t = (t - 1) ^ 2"
      by (simp add: loop_simps power2_eq_square algebra_simps)
    then show ?thesis
      by simp
  qed
  have one: "0 \<le> evaluate real_arith (PolynomicalFunction [1]) t" for t
    by (simp add: loop_simps)
  have "(0 :: real) \<le> 3 \<and>
      (\<forall>t. 0 \<le> t \<and> t \<le> 3 \<longrightarrow> 0 \<le> evaluate real_arith (PolynomicalFunction [1, - 2, 1]) t)"
    using square by simp
  with analytical_sign_flip [where A = real_arith and f = "PolynomicalFunction [1, - 2, 1]"
        and a = 3 and b = 0 and g = "PolynomicalFunction [1, - 2, 1]" and x = 3 and y = 0]
  have "nonpositive_result
       (integrate real_arith AnalyticalIntegrator (PolynomicalFunction [1, - 2, 1]) 3 0)"
    by blast
  moreover have "(- 1 :: real) \<le> 1 \<and>
      (\<forall>t. - 1 \<le> t \<and> t \<le> 1 \<longrightarrow> 0 \<le> evaluate real_arith (PolynomicalFunction [1]) t)"
    using one by simp
  with analytical_sign_flip [where A = real_arith and f = "PolynomicalFunction [1]"
        and a = 1 and b = "- 1" and g = "PolynomicalFunction [1]" and x = 1 and y = "- 1"]
  have "nonpositive_result
       (integrate real_arith AnalyticalIntegrator (PolynomicalFunction [1]) 1 (- 1))"
    by blast
  moreover have
    "integrate real_arith AnalyticalIntegrator (PolynomicalFunction [1, - 2, 1]) 3 0 = Inr (- 3)"
    "integrate real_arith AnalyticalIntegrator (PolynomicalFunction [1, - 2, 1]) 0 3 = Inr 3"
    "integrate real_arith AnalyticalIntegrator (PolynomicalFunction [1]) 1 (- 1) = Inr (- 2)"
    by (simp_all add: loop_simps)
  ultimately show ?thesis
    by simp
qed

text \<open>
  The claim as stated fails for a negative function: for \<open>f = -1\<close>, \<open>a = 1\<close> and \<open>b = 0\<close>
  the antiderivative is \<open>-x\<close> and the result is \<open>F(0) - F(1) = 1\<close>.
\<close>

theorem analytical_positive_counterexample:
  "(0::real) \<le> 1 \<and>
   integrate real_arith AnalyticalIntegrator (PolynomicalFunction [- 1]) 1 0 = Inr 1 \<and>
   \<not> nonpositive_result (integrate real_arith AnalyticalIntegrator (PolynomicalFunction [- 1]) 1 0)"
  by (simp add: evaluate_loop.simps antiderivative_loop.simps nonpositive_result_def)

section \<open>Properties of printing\<close>

lemma put_empty: "put s [] w = w"
  by (simp add: put_def)

lemma put_put: "put s t2 (put s t1 w) = put s (t1 @ t2) w"
  by (simp add: put_def)

lemma print_loop_step:
  "(if i = 0 then put Cout (dshow A (cs ! i)) w
    else put Cout (show_int (int i))
           (put Cout ''x^'' (put Cout (dshow A (cs ! i)) (put Cout '' + '' w))))
   = put Cout (term_text A cs i) w"
  by (simp add: term_text_def put_put)

lemma print_loop_put:
  "print_loop A cs i w = put Cout (concat (map (term_text A cs) [i..<length cs])) w"
proof (induction A cs i w rule: print_loop.induct)
  case (1 A cs i w)
  show ?case
  proof (cases "i < length cs")
    case True
    then show ?thesis
      using "1.IH"
      by (subst print_loop.simps) (simp add: upt_conv_Cons put_put print_loop_step)
  next
    case False
    then show ?thesis
      by (subst print_loop.simps) (simp add: put_empty)
  qed
qed

lemma print_Function_put:
  "print_Function A f stream w = put Cout (polynomial_text A f) w"
  by (cases f) (simp add: print_loop_put put_put polynomial_text_def)

lemma print_Integrator_put:
  "print_Integrator I stream w =
     put Cout (case I of AnalyticalIntegrator \<Rightarrow> ''Analytical'' | RiemannIntegrator h \<Rightarrow> ''Riemann Sum'') w"
  by (cases I) simp_all

lemma printTable_row_text:
  "printTable_row A f itors a b j w =
     (case row_text A f (drop j itors) a b of Inl e \<Rightarrow> Inl e | Inr t \<Rightarrow> Inr (put Cout t w))"
proof (induction A f itors a b j w rule: printTable_row.induct)
  case (1 A f itors a b j w)
  show ?case
  proof (cases "j < length itors")
    case True
    then have d: "drop j itors = itors ! j # drop (Suc j) itors"
      by (simp add: Cons_nth_drop_Suc)
    show ?thesis
    proof (cases "integrate A (itors ! j) f a b")
      case (Inl e)
      then show ?thesis
        using True d by (subst printTable_row.simps) simp
    next
      case (Inr v)
      then show ?thesis
        using True d "1.IH" [OF True Inr]
        by (subst printTable_row.simps) (simp add: put_put split: sum.splits)
    qed
  next
    case False
    then show ?thesis
      by (subst printTable_row.simps) (simp add: put_empty)
  qed
qed

lemma printTable_loop_text:
  "printTable_loop A fs itors a b i w =
     (case table_text A (drop i fs) itors a b of
        Inl e \<Rightarrow> Inl e | Inr t \<Rightarrow> Inr (put Cout t w))"
proof (induction A fs itors a b i w rule: printTable_loop.induct)
  case (1 A fs itors a b i w)
  show ?case
  proof (cases "i < length fs")
    case True
    then have d: "drop i fs = fs ! i # drop (Suc i) fs"
      by (simp add: Cons_nth_drop_Suc)
    show ?thesis
    proof (cases "row_text A (fs ! i) itors a b")
      case (Inl e)
      then show ?thesis
        using True d by (subst printTable_loop.simps) (simp add: printTable_row_text)
    next
      case (Inr r)
      then have "printTable_row A (fs ! i) itors a b 0
                   (print_Function A (fs ! i) Cout w)
                 = Inr (put Cout r (print_Function A (fs ! i) Cout w))"
        by (simp add: printTable_row_text)
      then show ?thesis
        using True d Inr "1.IH" [OF True]
        by (subst printTable_loop.simps)
          (simp add: put_put print_Function_put split: sum.splits del: print_Function.simps)
    qed
  next
    case False
    then show ?thesis
      by (subst printTable_loop.simps) (simp add: put_empty)
  qed
qed

lemma row_text_success:
  "\<forall>I \<in> set itors. integrate A I f a b = Inr (val I) \<Longrightarrow>
   row_text A f itors a b = Inr (concat (map (\<lambda>I. dshow A (val I) @ '';'') itors))"
  by (induction itors) (simp_all del: integrate.simps)

lemma table_text_success:
  "\<forall>f \<in> set fs. \<forall>I \<in> set itors. integrate A I f a b = Inr (val f I) \<Longrightarrow>
   table_text A fs itors a b =
     Inr (concat (map (\<lambda>f. polynomial_text A f
                            @ concat (map (\<lambda>I. dshow A (val f I) @ '';'') itors) @ endl)
                    fs))"
proof (induction fs)
  case Nil
  show ?case by simp
next
  case (Cons f fs)
  then have "\<forall>I \<in> set itors. integrate A I f a b = Inr (val f I)"
    by simp
  then have "row_text A f itors a b = Inr (concat (map (\<lambda>I. dshow A (val f I) @ '';'') itors))"
    by (rule row_text_success)
  then show ?case
    using Cons by simp
qed

text \<open>
  Claim C8, as amended. For the coefficients \<open>c\<^sub>0 .. c\<^sub>n\<close>, \<open>print\<close> appends to the standard
  output the terms in the order of the indices and then a newline: the term of index 0
  is the coefficient alone, the term of every index \<open>i > 0\<close> is \<open>" + "\<close>, the coefficient,
  \<open>"x^"\<close> and \<open>i\<close>, with nothing between the coefficient and the \<open>x\<close>. Every term is
  written, whatever the sign or the value of its coefficient.
\<close>

theorem print_Function_terms:
  "print_Function A (PolynomicalFunction cs) stream w =
     w(Cout := w Cout @
         concat (map (\<lambda>i. if i = 0 then dshow A (cs ! i)
                          else '' + '' @ dshow A (cs ! i) @ ''x^'' @ show_int (int i))
                   [0..<length cs]) @ endl)"
proof -
  have "term_text A cs = (\<lambda>i. if i = 0 then dshow A (cs ! i)
                          else '' + '' @ dshow A (cs ! i) @ ''x^'' @ show_int (int i))"
    by (rule ext) (simp add: term_text_def)
  then show ?thesis
    by (simp add: print_Function_put polynomial_text_def put_def del: print_Function.simps)
qed

text \<open>
  The claim as stated has a \<open>*\<close> between the coefficient and \<open>x\<close>; the program writes
  none. For the coefficients \<open>[2, 4]\<close> the output is \<open>2 + 4x^1\<close> and a newline.
\<close>

theorem print_Function_counterexample:
  "print_Function real_arith (PolynomicalFunction [2, 4]) Cout no_output Cout = ''2 + 4x^1'' @ endl
   \<and> print_Function real_arith (PolynomicalFunction [2, 4]) Cout no_output Cout
       \<noteq> ''2 + 4*x^1'' @ endl"
  by (simp add: loop_simps show_simps put_def no_output_def)

text \<open>A zero and a negative coefficient are written like any other.\<close>

lemma print_Function_zero_negative:
  "print_Function real_arith (PolynomicalFunction [0, - 4, 0]) Cout no_output Cout
     = ''0 + -4x^1 + 0x^2'' @ endl"
  by (simp add: loop_simps show_simps put_def no_output_def)

text \<open>
  Claim C9. \<open>printTable\<close> appends to the standard output, for each function in the order
  of the sequence, the text of the function, then for each integrator in the order of the
  sequence the value of \<open>integrate(f, a, b)\<close> and a semicolon, then a newline; no other
  stream changes. The first part states it against the description \<open>table_text\<close>, the
  second with the text written out when every \<open>integrate\<close> returns a value.
\<close>

theorem printTable_output:
  "printTable A fs itors a b w =
     (case table_text A fs itors a b of
        Inl e \<Rightarrow> Inl e
      | Inr t \<Rightarrow> Inr (w(Cout := w Cout @ t)))
   \<and> ((\<forall>f \<in> set fs. \<forall>I \<in> set itors. integrate A I f a b = Inr (val f I)) \<longrightarrow>
        printTable A fs itors a b w =
          Inr (w(Cout := w Cout @
                 concat (map (\<lambda>f. polynomial_text A f
                                   @ concat (map (\<lambda>I. dshow A (val f I) @ '';'') itors) @ endl)
                           fs))))"
proof (intro conjI impI)
  show "printTable A fs itors a b w =
     (case table_text A fs itors a b of
        Inl e \<Rightarrow> Inl e
      | Inr t \<Rightarrow> Inr (w(Cout := w Cout @ t)))"
    by (simp add: printTable_def printTable_loop_text put_def split: sum.split)
next
  assume "\<forall>f \<in> set fs. \<forall>I \<in> set itors. integrate A I f a b = Inr (val f I)"
  then have "table_text A fs itors a b =
     Inr (concat (map (\<lambda>f. polynomial_text A f
                            @ concat (map (\<lambda>I. dshow A (val f I) @ '';'') itors) @ endl)
                    fs))"
    by (rule table_text_success)
  then show "printTable A fs itors a b w =
          Inr (w(Cout := w Cout @
                 concat (map (\<lambda>f. polynomial_text A f
                                   @ concat (map (\<lambda>I. dshow A (val f I) @ '';'') itors) @ endl)
                           fs)))"
    by (simp add: printTable_def printTable_loop_text put_def)
qed

text \<open>
  The table of the polynomial \<open>2 + 4x^3 + 5x^7\<close> of \<open>main\<close> over \<open>[0.5, 1.5]\<close>, for the
  analytical integrator and the Riemann integrator with step \<open>0.25\<close>, in exact arithmetic.
\<close>

theorem printTable_output_witness:
  "printTable real_arith [PolynomicalFunction [2, 0, 0, 4, 0, 0, 0, 5]]
     [AnalyticalIntegrator, RiemannIntegrator (1 / 4)] (1 / 2) (3 / 2) no_output
   = Inr (no_output(Cout :=
       ''2 + 0x^1 + 0x^2 + 4x^3 + 0x^4 + 0x^5 + 0x^6 + 5x^7'' @ endl
       @ ''23.0156;25.1859;'' @ endl))"
proof -
  let ?f = "PolynomicalFunction [2, 0, 0, 4, 0, 0, 0, 5] :: real func"
  let ?val = "\<lambda>(f :: real func) (I :: real integrator).
    case I of AnalyticalIntegrator \<Rightarrow> 1473 / 64 | RiemannIntegrator h \<Rightarrow> 206323 / (8192 :: real)"
  have analytical: "integrate real_arith AnalyticalIntegrator ?f (1 / 2) (3 / 2) = Inr (1473 / 64)"
    by (simp add: loop_simps power_divide)
  have riemann: "integrate real_arith (RiemannIntegrator (1 / 4)) ?f (1 / 2) (3 / 2)
      = Inr (206323 / 8192)"
    by (simp add: loop_simps cast_simps power_divide)
  have shown: "show_double (1473 / 64) = ''23.0156''" "show_double (206323 / 8192) = ''25.1859''"
    by (simp_all add: show_simps)
  have poly: "polynomial_text real_arith ?f
      = ''2 + 0x^1 + 0x^2 + 4x^3 + 0x^4 + 0x^5 + 0x^6 + 5x^7'' @ endl"
    by (simp add: polynomial_text_def term_text_def show_simps upt_conv_Cons)
  have "\<forall>f \<in> set [?f]. \<forall>I \<in> set [AnalyticalIntegrator, RiemannIntegrator (1 / 4)].
      integrate real_arith I f (1 / 2) (3 / 2) = Inr (?val f I)"
    using analytical riemann by (simp del: integrate.simps)
  with printTable_output [where A = real_arith and fs = "[?f]"
      and itors = "[AnalyticalIntegrator, RiemannIntegrator (1 / 4)]"
      and a = "1 / 2" and b = "3 / 2" and w = no_output and val = ?val]
  have "printTable real_arith [?f] [AnalyticalIntegrator, RiemannIntegrator (1 / 4)]
      (1 / 2) (3 / 2) no_output
    = Inr (no_output(Cout := no_output Cout @
        concat (map (\<lambda>f. polynomial_text real_arith f
                 @ concat (map (\<lambda>I. dshow real_arith (?val f I) @ '';'')
                     [AnalyticalIntegrator, RiemannIntegrator (1 / 4)]) @ endl) [?f])))"
    by blast
  then show ?thesis
    by (simp add: shown poly no_output_def)
qed

text \<open>
  Claim C10, as amended. The three \<open>print\<close> methods do not use their stream argument:
  the streams after the call are the same for any two arguments, the text is appended to
  the standard output, and no stream other than the standard output changes. So nothing
  is written to the supplied stream unless it is the standard output itself.
\<close>

theorem print_ignores_stream:
  "print_Function A f s1 w = print_Function A f s2 w
   \<and> print_Integrator I s1 w = print_Integrator I s2 w
   \<and> (t \<noteq> Cout \<longrightarrow> print_Function A f s w t = w t \<and> print_Integrator I s w t = w t)
   \<and> print_Function A f s w Cout = w Cout @ polynomial_text A f
   \<and> print_Integrator AnalyticalIntegrator s w Cout = w Cout @ ''Analytical''
   \<and> print_Integrator (RiemannIntegrator h) s w Cout = w Cout @ ''Riemann Sum''"
  by (simp add: print_Function_put print_Integrator_put put_def
      del: print_Function.simps print_Integrator.simps)

theorem print_ignores_stream_witness:
  "print_Function real_arith (PolynomicalFunction [2, 4]) (Stream 1) no_output (Stream 1) = []
   \<and> print_Integrator (AnalyticalIntegrator :: real integrator) (Stream 1) no_output (Stream 1) = []
   \<and> print_Function real_arith (PolynomicalFunction [2, 4]) (Stream 1) no_output Cout
       = ''2 + 4x^1'' @ endl
   \<and> print_Function real_arith (PolynomicalFunction [2, 4]) (Stream 1) no_output
       = print_Function real_arith (PolynomicalFunction [2, 4]) Cout no_output"
  using print_ignores_stream [where A = real_arith and f = "PolynomicalFunction [2, 4]"
      and I = "AnalyticalIntegrator :: real integrator" and s = "Stream 1" and t = "Stream 1"
      and ?s1.0 = "Stream 1" and ?s2.0 = Cout and w = no_output and h = "1 :: real"]
  by (simp add: loop_simps show_simps put_def no_output_def)

text \<open>
  The claim as stated fails when the supplied stream is the standard output, as in the
  call \<open>print(cout)\<close> of \<open>printTable\<close>: the text is written to the supplied stream.
\<close>

theorem print_ignores_stream_counterexample:
  "print_Function real_arith (PolynomicalFunction [2, 0, 0, 4, 0, 0, 0, 5]) Cout no_output Cout
     \<noteq> no_output Cout"
  by (simp add: print_Function_put put_def no_output_def polynomial_text_def endl_def
      del: print_Function.simps)

end
